theory Spec2Isabelle
  imports Complex_Main
begin

section \<open>Data model\<close>

text \<open>
  JavaScript numbers are modelled as \<^typ>\<open>real\<close>; a value that the source leaves as
  \<open>NaN\<close> or \<open>null\<close> is \<open>None\<close> of an option type.  A candle's \<open>time\<close> is the
  instant that \<open>new Date(c.time)\<close> denotes, as an integer.  Field names follow the source
  except where two records would share a name or a name is taken by the library
  (\<open>open\<close>, \<open>id\<close>).
\<close>

record candle =
  time :: int
  open_price :: real
  high :: real
  low :: real
  close :: real
  volume :: real

record signal =
  sig_id :: int
  entry :: real
  stop_loss :: real
  take_profits :: "real list"
  direction :: string
  triggered_at :: int

record outcome_detail =
  hit :: string
  rr :: real
  hitPrice :: real
  hitTime :: int

text \<open>The arguments of one \<open>updateSignalStatus(id, status, {closed_at, outcome, outcome_detail})\<close> call.\<close>

record status_update =
  signal_id :: int
  status :: string
  closed_at :: int
  outcome :: string
  detail :: outcome_detail

section \<open>String helpers\<close>

definition startsWith :: "string \<Rightarrow> string \<Rightarrow> bool" where
  "startsWith s p = (take (length p) s = p)"

definition digit_char :: "nat \<Rightarrow> char" where
  "digit_char d = ''0123456789'' ! d"

text \<open>Decimal rendering of a natural number, as a template literal renders an integer.\<close>

fun show_nat :: "nat \<Rightarrow> string" where
  "show_nat n = (if n < 10 then [digit_char n] else show_nat (n div 10) @ [digit_char (n mod 10)])"

declare show_nat.simps [simp del]

section \<open>Outcome calculator (evaluation/calculator.js)\<close>

definition calculateRMultiple :: "signal \<Rightarrow> real \<Rightarrow> string \<Rightarrow> real" where
  "calculateRMultiple sig hit_price hitType =
     (let R = \<bar>entry sig - stop_loss sig\<bar> in
      if R = 0 then 0
      else if hitType = ''sl'' then - 1
      else if hitType = ''timeout'' then 0
      else if startsWith hitType ''tp'' \<and> direction sig = ''long''
        then (hit_price - entry sig) / R
      else if startsWith hitType ''tp'' \<and> direction sig = ''short''
        then (entry sig - hit_price) / R
      else 0)"

definition determineOutcome :: "string \<Rightarrow> real \<Rightarrow> string" where
  "determineOutcome hitType rMultiple =
     (if hitType = ''timeout'' then ''timeout''
      else if hitType = ''sl'' then ''loss''
      else if startsWith hitType ''tp'' then
        (if rMultiple > 0 then ''win''
         else if rMultiple = 0 then ''breakeven''
         else ''loss'')
      else ''timeout'')"

text \<open>\<open>Math.round\<close> rounds to the nearest integer, a tie going up.\<close>

definition math_round :: "real \<Rightarrow> real" where
  "math_round x = of_int \<lfloor>x + 1 / 2\<rfloor>"

definition createOutcomeDetail :: "string \<Rightarrow> real \<Rightarrow> real \<Rightarrow> int \<Rightarrow> outcome_detail" where
  "createOutcomeDetail hitType rMultiple hit_price hit_time =
     \<lparr> hit = hitType, rr = math_round (rMultiple * 100) / 100,
       hitPrice = hit_price, hitTime = hit_time \<rparr>"

section \<open>Exit checking (evaluation/checker.js)\<close>

definition slHit :: "signal \<Rightarrow> candle \<Rightarrow> bool" where
  "slHit sig c =
     (if direction sig = ''long'' then low c \<le> stop_loss sig else high c \<ge> stop_loss sig)"

definition tpHit :: "signal \<Rightarrow> candle \<Rightarrow> real \<Rightarrow> bool" where
  "tpHit sig c tp =
     (if direction sig = ''long'' then high c \<ge> tp else low c \<le> tp)"

definition closing_update :: "signal \<Rightarrow> string \<Rightarrow> real \<Rightarrow> int \<Rightarrow> status_update" where
  "closing_update sig hitType price t =
     (let rMultiple = calculateRMultiple sig price hitType;
          outc = determineOutcome hitType rMultiple
      in \<lparr> signal_id = sig_id sig, status = outc, closed_at = t, outcome = outc,
           detail = createOutcomeDetail hitType rMultiple price t \<rparr>)"

text \<open>The inner loop \<open>for (let i = 0; i < take_profits.length; i++)\<close>, from index \<open>i\<close> on.\<close>

fun check_tps :: "signal \<Rightarrow> candle \<Rightarrow> nat \<Rightarrow> real list \<Rightarrow> status_update option" where
  "check_tps sig c i [] = None"
| "check_tps sig c i (tp # tps) =
     (if tpHit sig c tp
      then Some (closing_update sig (''tp'' @ show_nat (i + 1)) tp (time c))
      else check_tps sig c (i + 1) tps)"

definition check_candle :: "signal \<Rightarrow> candle \<Rightarrow> status_update option" where
  "check_candle sig c =
     (if slHit sig c
      then Some (closing_update sig ''sl'' (stop_loss sig) (time c))
      else check_tps sig c 0 (take_profits sig))"

text \<open>The outer loop \<open>for (const candle of candlesAfterTrigger)\<close>.\<close>

fun scan_candles :: "signal \<Rightarrow> candle list \<Rightarrow> status_update option" where
  "scan_candles sig [] = None"
| "scan_candles sig (c # cs) =
     (case check_candle sig c of
        Some u \<Rightarrow> Some u
      | None \<Rightarrow> scan_candles sig cs)"

definition timeout_update :: "signal \<Rightarrow> candle \<Rightarrow> status_update" where
  "timeout_update sig c =
     (let currentPrice = close c;
          rMultiple = calculateRMultiple sig currentPrice ''timeout''
      in \<lparr> signal_id = sig_id sig, status = ''timeout'', closed_at = time c, outcome = ''timeout'',
           detail = createOutcomeDetail ''timeout'' rMultiple currentPrice (time c) \<rparr>)"

text \<open>
  \<open>checkTriggeredSignal\<close>, on the list \<open>fetchCandles\<close> returned and the configured
  \<open>timeoutCandles\<close>; \<open>None\<close> is a run that writes nothing.
\<close>

definition checkTriggeredSignal :: "int \<Rightarrow> signal \<Rightarrow> candle list \<Rightarrow> status_update option" where
  "checkTriggeredSignal timeoutCandles sig candles =
     (let candlesAfterTrigger = filter (\<lambda>c. time c > triggered_at sig) candles in
      if candlesAfterTrigger = [] then None
      else case scan_candles sig candlesAfterTrigger of
             Some u \<Rightarrow> Some u
           | None \<Rightarrow>
               if int (length candlesAfterTrigger) \<ge> timeoutCandles
               then Some (timeout_update sig (last candlesAfterTrigger))
               else None)"

section \<open>Moving average (indicators/ema.js)\<close>

text \<open>The loop \<open>for (let i = period; i < prices.length; i++)\<close>, carrying \<open>ema[i - 1]\<close>.\<close>

fun ema_loop :: "real \<Rightarrow> real \<Rightarrow> real list \<Rightarrow> real option list" where
  "ema_loop multiplier prev [] = []"
| "ema_loop multiplier prev (p # ps) =
     (let e = (p - prev) * multiplier + prev in Some e # ema_loop multiplier e ps)"

definition calculateEMA :: "real list \<Rightarrow> int \<Rightarrow> real option list" where
  "calculateEMA prices period =
     (if prices = [] then []
      else if period \<le> 0 \<or> period > int (length prices) then replicate (length prices) None
      else
        let multiplier = 2 / (of_int period + 1);
            sum = foldl (+) 0 (take (nat period) prices);
            sma = sum / of_int period
        in replicate (nat period - 1) None @ [Some sma]
           @ ema_loop multiplier sma (drop (nat period) prices))"

section \<open>Momentum (indicators/rsi.js)\<close>

fun price_changes :: "real list \<Rightarrow> real list" where
  "price_changes (x # y # ys) = (y - x) # price_changes (y # ys)"
| "price_changes _ = []"

text \<open>One round of the seeding loop over the first \<open>period\<close> changes.\<close>

definition seed_step :: "real \<times> real \<Rightarrow> real \<Rightarrow> real \<times> real" where
  "seed_step acc change =
     (if change > 0 then (fst acc + change, snd acc) else (fst acc, snd acc + \<bar>change\<bar>))"

text \<open>\<open>rs = avgLoss === 0 ? 100 : avgGain / avgLoss; 100 - (100 / (1 + rs))\<close>\<close>

definition rsi_of :: "real \<Rightarrow> real \<Rightarrow> real" where
  "rsi_of avgGain avgLoss =
     (let rs = (if avgLoss = 0 then 100 else avgGain / avgLoss) in 100 - 100 / (1 + rs))"

definition smooth :: "nat \<Rightarrow> real \<Rightarrow> real \<Rightarrow> real" where
  "smooth period avg x = (avg * (real period - 1) + x) / real period"

definition gain_of :: "real \<Rightarrow> real" where
  "gain_of change = (if change > 0 then change else 0)"

definition loss_of :: "real \<Rightarrow> real" where
  "loss_of change = (if change < 0 then \<bar>change\<bar> else 0)"

text \<open>The smoothing loop \<open>for (let i = period; i < changes.length; i++)\<close>.\<close>

fun rsi_loop :: "nat \<Rightarrow> real \<Rightarrow> real \<Rightarrow> real list \<Rightarrow> real option list" where
  "rsi_loop period avgGain avgLoss [] = []"
| "rsi_loop period avgGain avgLoss (change # rest) =
     (let avgGain' = smooth period avgGain (gain_of change);
          avgLoss' = smooth period avgLoss (loss_of change)
      in Some (rsi_of avgGain' avgLoss') # rsi_loop period avgGain' avgLoss' rest)"

text \<open>
  With \<open>period = 0\<close> both averages are \<open>0 / 0\<close>, so every entry stays \<open>NaN\<close>.
\<close>

definition calculateRSI :: "real list \<Rightarrow> nat \<Rightarrow> real option list" where
  "calculateRSI prices period =
     (if length prices < period + 1 then replicate (length prices) None
      else if period = 0 then replicate (length prices) None
      else
        let changes = price_changes prices;
            seed = foldl seed_step (0, 0) (take period changes);
            avgGain = fst seed / real period;
            avgLoss = snd seed / real period
        in replicate period None @ [Some (rsi_of avgGain avgLoss)]
           @ rsi_loop period avgGain avgLoss (drop period changes))"

text \<open>
  The pair \<open>(avgGain, avgLoss)\<close> the same loops hold when they write each entry of
  \<open>rsiValues\<close>.
\<close>

fun rsi_averages_loop :: "nat \<Rightarrow> real \<Rightarrow> real \<Rightarrow> real list \<Rightarrow> (real \<times> real) option list" where
  "rsi_averages_loop period avgGain avgLoss [] = []"
| "rsi_averages_loop period avgGain avgLoss (change # rest) =
     (let avgGain' = smooth period avgGain (gain_of change);
          avgLoss' = smooth period avgLoss (loss_of change)
      in Some (avgGain', avgLoss') # rsi_averages_loop period avgGain' avgLoss' rest)"

definition rsi_averages :: "real list \<Rightarrow> nat \<Rightarrow> (real \<times> real) option list" where
  "rsi_averages prices period =
     (if length prices < period + 1 then replicate (length prices) None
      else if period = 0 then replicate (length prices) None
      else
        let changes = price_changes prices;
            seed = foldl seed_step (0, 0) (take period changes);
            avgGain = fst seed / real period;
            avgLoss = snd seed / real period
        in replicate period None @ [Some (avgGain, avgLoss)]
           @ rsi_averages_loop period avgGain avgLoss (drop period changes))"

section \<open>Support and resistance clustering (indicators/swings.js)\<close>

record swing =
  price :: real
  swing_time :: int
  index :: nat

record cluster =
  avgPrice :: real
  touches :: nat

record sr_level =
  level_price :: real
  level_type :: string
  level_touches :: nat

text \<open>What is pushed for a finished \<open>currentCluster\<close>.\<close>

definition cluster_of :: "swing list \<Rightarrow> cluster" where
  "cluster_of currentCluster =
     \<lparr> avgPrice = foldl (\<lambda>sum s. sum + price s) 0 currentCluster / real (length currentCluster),
       touches = length currentCluster \<rparr>"

text \<open>
  The loop \<open>for (let i = 1; i < sorted.length; i++)\<close> and the push after it.  The anchor
  \<open>currentCluster[0]\<close> is \<open>hd currentCluster\<close>: the loop never holds an empty cluster.
\<close>

fun cluster_loop :: "real \<Rightarrow> swing list \<Rightarrow> cluster list \<Rightarrow> swing list \<Rightarrow> cluster list" where
  "cluster_loop threshold currentCluster clusters [] =
     (if length currentCluster > 0 then clusters @ [cluster_of currentCluster] else clusters)"
| "cluster_loop threshold currentCluster clusters (s # rest) =
     (let priceDiff = \<bar>price s - price (hd currentCluster)\<bar> in
      if priceDiff \<le> threshold
      then cluster_loop threshold (currentCluster @ [s]) clusters rest
      else cluster_loop threshold [s]
             (if length currentCluster > 0 then clusters @ [cluster_of currentCluster]
              else clusters) rest)"

definition clusterSwings :: "swing list \<Rightarrow> real \<Rightarrow> cluster list" where
  "clusterSwings swings threshold =
     (if swings = [] then []
      else let sorted = sort_key price swings
           in cluster_loop threshold [hd sorted] [] (tl sorted))"

text \<open>
  The same loop, keeping the members of each cluster where the source keeps only their
  mean and their number.
\<close>

fun group_loop :: "real \<Rightarrow> swing list \<Rightarrow> swing list list \<Rightarrow> swing list \<Rightarrow> swing list list" where
  "group_loop threshold currentCluster groups [] =
     (if length currentCluster > 0 then groups @ [currentCluster] else groups)"
| "group_loop threshold currentCluster groups (s # rest) =
     (let priceDiff = \<bar>price s - price (hd currentCluster)\<bar> in
      if priceDiff \<le> threshold
      then group_loop threshold (currentCluster @ [s]) groups rest
      else group_loop threshold [s]
             (if length currentCluster > 0 then groups @ [currentCluster] else groups) rest)"

definition cluster_members :: "swing list \<Rightarrow> real \<Rightarrow> swing list list" where
  "cluster_members swings threshold =
     (if swings = [] then []
      else let sorted = sort_key price swings
           in group_loop threshold [hd sorted] [] (tl sorted))"

definition level_of :: "string \<Rightarrow> cluster \<Rightarrow> sr_level" where
  "level_of kind c = \<lparr> level_price = avgPrice c, level_type = kind, level_touches = touches c \<rparr>"

text \<open>
  \<open>srLevels.sort((a, b) => b.price - a.price)\<close> is a stable sort by descending price.
  \<open>atrValue\<close> is a number here: the caller passes it only when it is not \<open>null\<close>.
\<close>

definition identifySRLevels :: "swing list \<Rightarrow> swing list \<Rightarrow> real \<Rightarrow> real \<Rightarrow> sr_level list" where
  "identifySRLevels swingHighs swingLows atrValue threshold =
     (if atrValue = 0 \<or> atrValue \<le> 0 then []
      else
        let clusterThreshold = atrValue * threshold;
            resistanceClusters = clusterSwings swingHighs clusterThreshold;
            supportClusters = clusterSwings swingLows clusterThreshold;
            srLevels = map (level_of ''resistance'') resistanceClusters
                       @ map (level_of ''support'') supportClusters
        in sort_key (\<lambda>l. - level_price l) srLevels)"

definition touches_of_type :: "string \<Rightarrow> sr_level list \<Rightarrow> nat" where
  "touches_of_type kind levels =
     sum_list (map level_touches (filter (\<lambda>l. level_type l = kind) levels))"

section \<open>Candidate filter (scanner/prefilter.js)\<close>

record pattern_result =
  detected :: bool
  description :: string

record patterns =
  bullishEngulfing :: pattern_result
  bearishEngulfing :: pattern_result
  bullishPin :: pattern_result
  bearishPin :: pattern_result
  insideBar :: pattern_result

record trend =
  trend_direction :: string
  strength :: string
  trend_description :: string

record swings =
  swingHighs :: "swing list"
  swingLows :: "swing list"
  srLevels :: "sr_level list"
  nearSR :: "sr_level option"

text \<open>
  The bundle \<open>computeAllIndicators\<close> builds.  The latest moving averages, volatility and
  momentum are a number or \<open>null\<close>.
\<close>

record indicators =
  ema50 :: "real option"
  ema200 :: "real option"
  atr14 :: "real option"
  rsi14 :: "real option"
  swings :: swings
  patterns :: patterns
  trend :: trend
  currentPrice :: real

record candidate_result =
  isCandidate :: bool
  reason :: string

text \<open>\<open>!x\<close> on a number or \<open>null\<close>: true for \<open>null\<close> and for \<open>0\<close>.\<close>

definition falsy :: "real option \<Rightarrow> bool" where
  "falsy x = (x = None \<or> x = Some 0)"

text \<open>A number or \<open>null\<close> as an operand of a comparison or of arithmetic: \<open>null\<close> counts as \<open>0\<close>.\<close>

definition num :: "real option \<Rightarrow> real" where
  "num x = (case x of None \<Rightarrow> 0 | Some v \<Rightarrow> v)"

text \<open>
  \<open>a / b < c\<close> for \<open>a \<ge> 0\<close>: with \<open>b = 0\<close> the quotient is \<open>Infinity\<close> or \<open>NaN\<close> and the
  comparison is false.
\<close>

definition ratio_lt :: "real \<Rightarrow> real \<Rightarrow> real \<Rightarrow> bool" where
  "ratio_lt a b c = (b \<noteq> 0 \<and> a / b < c)"

text \<open>
  \<open>x.toFixed(f)\<close>: the sign, then the nearest integer to \<open>|x| * 10^f\<close> (a tie going up)
  written with \<open>f\<close> decimals.
\<close>

definition toFixed :: "real \<Rightarrow> nat \<Rightarrow> string" where
  "toFixed x f =
     (let n = nat \<lfloor>\<bar>x\<bar> * 10 ^ f + 1 / 2\<rfloor>;
          whole = show_nat (n div 10 ^ f);
          frac = show_nat (n mod 10 ^ f)
      in (if x < 0 then ''-'' else []) @ whole
         @ (if f = 0 then [] else ''.'' @ replicate (f - length frac) CHR ''0'' @ frac))"

fun join :: "string \<Rightarrow> string list \<Rightarrow> string" where
  "join sep [] = []"
| "join sep [x] = x"
| "join sep (x # y # ys) = x @ sep @ join sep (y # ys)"

definition getMinimumATR :: "real \<Rightarrow> real" where
  "getMinimumATR p = (if p < 10 then 0.0001 else p * 0.0001)"

definition checkTrendAlignedEngulfing :: "indicators \<Rightarrow> string option" where
  "checkTrendAlignedEngulfing ind =
     (if detected (bullishEngulfing (patterns ind))
         \<and> trend_direction (trend ind) = ''uptrend''
         \<and> currentPrice ind > num (ema50 ind)
      then Some ''Bullish engulfing in uptrend''
      else if detected (bearishEngulfing (patterns ind))
         \<and> trend_direction (trend ind) = ''downtrend''
         \<and> currentPrice ind < num (ema50 ind)
      then Some ''Bearish engulfing in downtrend''
      else None)"

definition checkPinBarAtStructure :: "indicators \<Rightarrow> candle \<Rightarrow> string option" where
  "checkPinBarAtStructure ind lastCandle =
     (case nearSR (swings ind) of
        None \<Rightarrow> None
      | Some sr \<Rightarrow>
          if detected (bullishPin (patterns ind)) \<and> level_type sr = ''support''
          then Some (''Bullish pin bar at support level ('' @ toFixed (level_price sr) 5 @ '')'')
          else if detected (bearishPin (patterns ind)) \<and> level_type sr = ''resistance''
          then Some (''Bearish pin bar at resistance level ('' @ toFixed (level_price sr) 5 @ '')'')
          else None)"

text \<open>
  \<open>candles.slice(-10)\<close> is the last ten candles.  With fewer than two of them
  \<open>closes[closes.length - 2]\<close> is \<open>undefined\<close>, both comparisons with it are false and
  nothing is returned.
\<close>

definition checkPullbackIntoTrend :: "candle list \<Rightarrow> indicators \<Rightarrow> string option" where
  "checkPullbackIntoTrend candles ind =
     (let dir = trend_direction (trend ind);
          closes = map close (drop (length candles - 10) candles)
      in
      if dir \<noteq> ''uptrend'' \<and> dir \<noteq> ''downtrend'' then None
      else if length closes < 2 then None
      else if dir = ''uptrend'' then
        (let minRecent = fold min (tl closes) (hd closes);
             priceBounced = (currentPrice ind > minRecent
                             \<and> closes ! (length closes - 2) < currentPrice ind);
             touchedEMA50 = ratio_lt \<bar>minRecent - num (ema50 ind)\<bar> (num (ema50 ind)) 0.005;
             nearSwingLow = (length (swingLows (swings ind)) > 0
                             \<and> ratio_lt \<bar>minRecent - price (last (swingLows (swings ind)))\<bar>
                                  minRecent 0.01)
         in if priceBounced \<and> (touchedEMA50 \<or> nearSwingLow)
            then Some ''Pullback to support in uptrend, bouncing'' else None)
      else
        (let maxRecent = fold max (tl closes) (hd closes);
             priceRejected = (currentPrice ind < maxRecent
                              \<and> closes ! (length closes - 2) > currentPrice ind);
             touchedEMA50 = ratio_lt \<bar>maxRecent - num (ema50 ind)\<bar> (num (ema50 ind)) 0.005;
             nearSwingHigh = (length (swingHighs (swings ind)) > 0
                              \<and> ratio_lt \<bar>maxRecent - price (last (swingHighs (swings ind)))\<bar>
                                   maxRecent 0.01)
         in if priceRejected \<and> (touchedEMA50 \<or> nearSwingHigh)
            then Some ''Pullback to resistance in downtrend, rejecting'' else None))"

definition checkRSIDivergence :: "candle list \<Rightarrow> indicators \<Rightarrow> string option" where
  "checkRSIDivergence candles ind =
     (if length (swingHighs (swings ind)) < 2 \<or> length (swingLows (swings ind)) < 2 then None
      else if num (rsi14 ind) < 30 \<and> length (swingLows (swings ind)) \<ge> 2
      then Some ''RSI oversold with potential bullish divergence''
      else if num (rsi14 ind) > 70 \<and> length (swingHighs (swings ind)) \<ge> 2
      then Some ''RSI overbought with potential bearish divergence''
      else None)"

text \<open>\<open>[a, b].filter(Boolean).length\<close>\<close>

definition count_true :: "bool list \<Rightarrow> nat" where
  "count_true bs = length (filter (\<lambda>b. b) bs)"

definition checkReversalAtSR :: "indicators \<Rightarrow> string option" where
  "checkReversalAtSR ind =
     (case nearSR (swings ind) of
        None \<Rightarrow> None
      | Some sr \<Rightarrow>
          if level_touches sr < 2 then None
          else if level_type sr = ''support''
                  \<and> count_true [detected (bullishEngulfing (patterns ind)),
                                 detected (bullishPin (patterns ind))] \<ge> 1
          then Some (''Reversal setup at strong support ('' @ show_nat (level_touches sr)
                     @ '' touches)'')
          else if level_type sr = ''resistance''
                  \<and> count_true [detected (bearishEngulfing (patterns ind)),
                                 detected (bearishPin (patterns ind))] \<ge> 1
          then Some (''Reversal setup at strong resistance ('' @ show_nat (level_touches sr)
                     @ '' touches)'')
          else None)"

text \<open>\<open>if (check(...)) reasons.push(check(...))\<close>: a string is pushed when it is not empty.\<close>

definition push_if :: "string option \<Rightarrow> string list \<Rightarrow> string list" where
  "push_if r reasons =
     (case r of None \<Rightarrow> reasons | Some s \<Rightarrow> if s = [] then reasons else reasons @ [s])"

text \<open>The array \<open>reasons\<close> after the five pre-filters.\<close>

definition prefilter_reasons :: "candle list \<Rightarrow> indicators \<Rightarrow> string \<Rightarrow> string list" where
  "prefilter_reasons candles ind mode =
     (let lastCandle = last candles;
          r1 = push_if (checkTrendAlignedEngulfing ind) [];
          r2 = push_if (checkPinBarAtStructure ind lastCandle) r1;
          r3 = push_if (checkPullbackIntoTrend candles ind) r2;
          r4 = (if mode = ''aggressive'' then push_if (checkRSIDivergence candles ind) r3 else r3);
          r5 = push_if (checkReversalAtSR ind) r4
      in r5)"

definition applyPrefilters :: "candle list \<Rightarrow> indicators \<Rightarrow> string \<Rightarrow> candidate_result" where
  "applyPrefilters candles ind mode =
     (if length candles < 50
      then \<lparr> isCandidate = False, reason = ''Insufficient candle data'' \<rparr>
      else if falsy (atr14 ind) \<or> falsy (ema50 ind) \<or> falsy (ema200 ind)
      then \<lparr> isCandidate = False, reason = ''Missing required indicators'' \<rparr>
      else
        let minAtr = getMinimumATR (currentPrice ind) in
        if num (atr14 ind) < minAtr
        then \<lparr> isCandidate = False,
               reason = ''ATR too small ('' @ toFixed (num (atr14 ind)) 5 @ '' < ''
                        @ toFixed minAtr 5 @ ''), insufficient volatility'' \<rparr>
        else if trend_direction (trend ind) = ''choppy''
        then \<lparr> isCandidate = False, reason = ''Choppy market with flat EMAs, no clear trend'' \<rparr>
        else
          let reasons = prefilter_reasons candles ind mode in
          if length reasons = 0 then \<lparr> isCandidate = False, reason = [] \<rparr>
          else \<lparr> isCandidate = True, reason = join '' + '' (filter (\<lambda>s. s \<noteq> []) reasons) \<rparr>)"

section \<open>Notions used in the statements, and sample inputs\<close>

text \<open>A bar fires when the stop-loss test or the test of some take-profit holds on it.\<close>

definition fires :: "signal \<Rightarrow> candle \<Rightarrow> bool" where
  "fires sig c = (slHit sig c \<or> (\<exists>tp \<in> set (take_profits sig). tpHit sig c tp))"

text \<open>The long trade of the specification's outcome contracts.\<close>

definition example_long :: signal where
  "example_long = \<lparr> sig_id = 1, entry = 1.1, stop_loss = 1.095, take_profits = [1.11, 1.12],
                     direction = ''long'', triggered_at = 0 \<rparr>"

definition bar :: "int \<Rightarrow> real \<Rightarrow> real \<Rightarrow> candle" where
  "bar t lo hi = \<lparr> time = t, open_price = lo, high = hi, low = lo, close = hi, volume = 0 \<rparr>"

text \<open>
  A fetch of fifty valid bars for that trade: forty-eight bars up to the trigger time in
  ascending order, then a bar of time 2 that reaches the first target, placed before a
  bar of time 1 that reaches the stop-loss.
\<close>

definition earlier_bars :: "candle list" where
  "earlier_bars = map (\<lambda>k. bar (- int k) 1.1 1.1) (rev [0..<48])"

definition out_of_order_fetch :: "candle list" where
  "out_of_order_fetch = earlier_bars @ [bar 2 1.1 1.125, bar 1 1.09 1.1]"

text \<open>Every member of a cluster is within the threshold of its first member.\<close>

definition within_anchor :: "real \<Rightarrow> swing list \<Rightarrow> bool" where
  "within_anchor th g = (\<forall>s \<in> set g. \<bar>price s - price (hd g)\<bar> \<le> th)"

text \<open>The anchors of two clusters are further apart than the threshold.\<close>

abbreviation apart :: "real \<Rightarrow> swing list \<Rightarrow> swing list \<Rightarrow> bool" where
  "apart th g g' \<equiv> th < \<bar>price (hd g') - price (hd g)\<bar>"

definition swing_at :: "real \<Rightarrow> nat \<Rightarrow> swing" where
  "swing_at p i = \<lparr> price = p, swing_time = int i, index = i \<rparr>"

text \<open>The reason a pre-filter contributes: its string when it returned one.\<close>

definition triggered :: "string option \<Rightarrow> string list" where
  "triggered r = (case r of None \<Rightarrow> [] | Some s \<Rightarrow> [s])"

text \<open>None of the four rejection tests of \<open>applyPrefilters\<close> holds.\<close>

definition passes :: "candle list \<Rightarrow> indicators \<Rightarrow> bool" where
  "passes candles ind =
     (\<not> length candles < 50
      \<and> \<not> (falsy (atr14 ind) \<or> falsy (ema50 ind) \<or> falsy (ema200 ind))
      \<and> \<not> num (atr14 ind) < getMinimumATR (currentPrice ind)
      \<and> trend_direction (trend ind) \<noteq> ''choppy'')"

text \<open>
  Sample bundles: no pattern detected; moving averages \<open>1\<close> and \<open>1.02\<close>, volatility \<open>0.01\<close>,
  price \<open>1\<close>, a trend in transition, and the given momentum, swings, nearest level and
  patterns; \<open>n\<close> identical bars.
\<close>

definition quiet_patterns :: patterns where
  "quiet_patterns =
     \<lparr> bullishEngulfing = \<lparr>detected = False, description = []\<rparr>,
       bearishEngulfing = \<lparr>detected = False, description = []\<rparr>,
       bullishPin = \<lparr>detected = False, description = []\<rparr>,
       bearishPin = \<lparr>detected = False, description = []\<rparr>,
       insideBar = \<lparr>detected = False, description = []\<rparr> \<rparr>"

definition sample_indicators :: "real \<Rightarrow> swing list \<Rightarrow> swing list \<Rightarrow> sr_level option \<Rightarrow> patterns \<Rightarrow> indicators" where
  "sample_indicators r his los near pats =
     \<lparr> ema50 = Some 1, ema200 = Some 1.02, atr14 = Some 0.01, rsi14 = Some r,
       swings = \<lparr> swingHighs = his, swingLows = los, srLevels = [], nearSR = near \<rparr>,
       patterns = pats,
       trend = \<lparr> trend_direction = ''transition'', strength = ''weak'', trend_description = [] \<rparr>,
       currentPrice = 1 \<rparr>"

definition flat_candles :: "nat \<Rightarrow> candle list" where
  "flat_candles n = replicate n (bar 1 1 1)"

text \<open>Fifty closes, each one hundredth above the one before.\<close>

definition rising_closes :: "real list" where
  "rising_closes = map (\<lambda>k. 1 + real k / 100) [0..<50]"

section \<open>Outcome calculator: fixed and price-derived multiples\<close>



text \<open>
  Claim C1.  When entry and stop-loss differ, \<open>calculateRMultiple\<close> is \<open>-1\<close> for hit type
  \<open>sl\<close> and \<open>0\<close> for \<open>timeout\<close>, whatever the hit price; for \<open>tp1\<close>, \<open>tp2\<close>, \<open>tp3\<close> it is
  \<open>(hitPrice - entry) / |entry - stopLoss|\<close> for a long trade and
  \<open>(entry - hitPrice) / |entry - stopLoss|\<close> for a short one; a hit type that does not
  start with \<open>tp\<close> gives a result that does not depend on the hit price; and when
  \<open>|entry - stopLoss| = 0\<close> the result is \<open>0\<close> for every hit type.
\<close>

theorem calculateRMultiple_contract:
  "(entry sig \<noteq> stop_loss sig \<longrightarrow>
      calculateRMultiple sig p ''sl'' = - 1 \<and> calculateRMultiple sig p ''timeout'' = 0)
   \<and> (entry sig \<noteq> stop_loss sig \<and> h \<in> {''tp1'', ''tp2'', ''tp3''} \<longrightarrow>
        (direction sig = ''long'' \<longrightarrow>
           calculateRMultiple sig p h = (p - entry sig) / \<bar>entry sig - stop_loss sig\<bar>)
      \<and> (direction sig = ''short'' \<longrightarrow>
           calculateRMultiple sig p h = (entry sig - p) / \<bar>entry sig - stop_loss sig\<bar>))
   \<and> (\<not> startsWith h ''tp'' \<longrightarrow> calculateRMultiple sig p h = calculateRMultiple sig p' h)
   \<and> (\<bar>entry sig - stop_loss sig\<bar> = 0 \<longrightarrow> calculateRMultiple sig p h = 0)"
  by (auto simp: calculateRMultiple_def startsWith_def Let_def)

theorem calculateRMultiple_contract_witness:
  "entry example_long \<noteq> stop_loss example_long
   \<and> calculateRMultiple example_long 1.09 ''sl'' = - 1
   \<and> calculateRMultiple example_long 1.09 ''timeout'' = 0
   \<and> calculateRMultiple example_long 1.11 ''tp1'' = 2
   \<and> \<not> startsWith ''sl'' ''tp''
   \<and> calculateRMultiple example_long 1.09 ''sl'' = calculateRMultiple example_long 5 ''sl''"
  using calculateRMultiple_contract [of example_long "1.09" "''sl''" 5]
        calculateRMultiple_contract [of example_long "1.11" "''tp1''" 5]
  by (simp add: example_long_def startsWith_def)

section \<open>Exit checking: which bar closes a trade\<close>

lemma check_tps_None: "check_tps sig c i tps = None \<longleftrightarrow> (\<forall>tp \<in> set tps. \<not> tpHit sig c tp)"
  by (induction tps arbitrary: i) auto

lemma check_candle_None: "check_candle sig c = None \<longleftrightarrow> \<not> fires sig c"
  by (auto simp: check_candle_def fires_def check_tps_None)

lemma closing_update_fields:
  "closed_at (closing_update sig h p t) = t"
  "hitTime (detail (closing_update sig h p t)) = t"
  "hit (detail (closing_update sig h p t)) = h"
  "hitPrice (detail (closing_update sig h p t)) = p"
  "signal_id (closing_update sig h p t) = sig_id sig"
  "outcome (closing_update sig h p t) = determineOutcome h (calculateRMultiple sig p h)"
  "status (closing_update sig h p t) = determineOutcome h (calculateRMultiple sig p h)"
  "rr (detail (closing_update sig h p t)) = math_round (calculateRMultiple sig p h * 100) / 100"
  by (simp_all add: closing_update_def createOutcomeDetail_def Let_def)

lemma check_tps_first:
  assumes "k < length tps" "tpHit sig c (tps ! k)" "\<forall>j < k. \<not> tpHit sig c (tps ! j)"
  shows "check_tps sig c i tps = Some (closing_update sig (''tp'' @ show_nat (i + k + 1)) (tps ! k) (time c))"
  using assms
proof (induction tps arbitrary: i k)
  case Nil
  then show ?case by simp
next
  case (Cons tp tps)
  show ?case
  proof (cases k)
    case 0
    with Cons.prems show ?thesis by simp
  next
    case (Suc k')
    from Cons.prems Suc have no: "\<not> tpHit sig c tp" by auto
    have "check_tps sig c (i + 1) tps
          = Some (closing_update sig (''tp'' @ show_nat (i + 1 + k' + 1)) (tps ! k') (time c))"
    proof (rule Cons.IH)
      show "k' < length tps" using Cons.prems Suc by simp
      show "tpHit sig c (tps ! k')" using Cons.prems Suc by simp
      show "\<forall>j<k'. \<not> tpHit sig c (tps ! j)"
      proof (intro allI impI)
        fix j assume "j < k'"
        then have "Suc j < k" using Suc by simp
        with Cons.prems have "\<not> tpHit sig c ((tp # tps) ! Suc j)" by blast
        then show "\<not> tpHit sig c (tps ! j)" by simp
      qed
    qed
    with no Suc show ?thesis by simp
  qed
qed

lemma check_tps_Some:
  "check_tps sig c i tps = Some u \<Longrightarrow>
     closed_at u = time c \<and> hitTime (detail u) = time c \<and> startsWith (hit (detail u)) ''tp''"
  by (induction tps arbitrary: i) (auto simp: closing_update_fields startsWith_def split: if_splits)

lemma check_candle_Some:
  assumes "check_candle sig c = Some u"
  shows "closed_at u = time c \<and> hitTime (detail u) = time c
         \<and> (slHit sig c \<longrightarrow> hit (detail u) = ''sl'' \<and> outcome u = ''loss'' \<and> status u = ''loss''
               \<and> hitPrice (detail u) = stop_loss sig)
         \<and> (\<not> slHit sig c \<longrightarrow> startsWith (hit (detail u)) ''tp'')"
  using assms
  by (auto simp: check_candle_def closing_update_fields determineOutcome_def
           dest: check_tps_Some split: if_splits)

lemma scan_candles_skip:
  "\<forall>b \<in> set pre. \<not> fires sig b \<Longrightarrow> scan_candles sig (pre @ cs) = scan_candles sig cs"
  by (induction pre) (auto simp: check_candle_None[symmetric])

lemma scan_candles_first:
  assumes "\<forall>b \<in> set pre. \<not> fires sig b" "fires sig c"
  shows "scan_candles sig (pre @ c # post) = check_candle sig c"
proof -
  from assms(2) obtain u where "check_candle sig c = Some u"
    using check_candle_None by fastforce
  then show ?thesis using scan_candles_skip[OF assms(1)] by simp
qed

lemma checkTriggeredSignal_first:
  assumes "filter (\<lambda>c. time c > triggered_at sig) candles = pre @ c # post"
      and "\<forall>b \<in> set pre. \<not> fires sig b" and "fires sig c"
  shows "checkTriggeredSignal tc sig candles = check_candle sig c \<and> check_candle sig c \<noteq> None"
proof -
  from assms(3) obtain u where u: "check_candle sig c = Some u"
    using check_candle_None by fastforce
  have "scan_candles sig (pre @ c # post) = Some u"
    using scan_candles_first[OF assms(2,3)] u by simp
  then show ?thesis using assms(1) u by (simp add: checkTriggeredSignal_def)
qed

lemma sorted_after_first:
  assumes "sorted (map time candles)" "filter P candles = pre @ c # post"
  shows "\<forall>b \<in> set post. time c \<le> time b"
proof -
  have "sorted (map time (filter P candles))"
    using assms(1) by (simp add: sorted_filter)
  then show ?thesis using assms(2) by (simp add: sorted_append)
qed


text \<open>
  Claim C3.  On the bar that closes the trade, when the stop-loss test fails, the
  take-profits are tested in stored order and the hit recorded is \<open>tp(k+1)\<close> for the least
  index \<open>k\<close> whose test holds, with that target as hit price.
\<close>

theorem tp_first_index:
  assumes "filter (\<lambda>c. time c > triggered_at sig) candles = pre @ c # post"
      and "\<forall>b \<in> set pre. \<not> fires sig b"
      and "\<not> slHit sig c"
      and "k < length (take_profits sig)"
      and "tpHit sig c (take_profits sig ! k)"
      and "\<forall>j < k. \<not> tpHit sig c (take_profits sig ! j)"
  shows "\<exists>u. checkTriggeredSignal tc sig candles = Some u
           \<and> hit (detail u) = ''tp'' @ show_nat (k + 1)
           \<and> hitPrice (detail u) = take_profits sig ! k
           \<and> closed_at u = time c"
proof -
  have "fires sig c" using assms(4,5) by (auto simp: fires_def)
  from checkTriggeredSignal_first[OF assms(1,2) this]
  have "checkTriggeredSignal tc sig candles = check_candle sig c" by simp
  also have "\<dots> = check_tps sig c 0 (take_profits sig)"
    using assms(3) by (simp add: check_candle_def)
  also have "\<dots> = Some (closing_update sig (''tp'' @ show_nat (0 + k + 1)) (take_profits sig ! k) (time c))"
    by (rule check_tps_first[OF assms(4,5,6)])
  finally show ?thesis by (simp add: closing_update_fields)
qed



text \<open>
  The specification's ordering contract: targets \<open>[1.11, 1.12]\<close>, a first post-trigger bar
  with high \<open>1.125\<close> beyond both; the hit is \<open>tp1\<close>.
\<close>

theorem tp_first_index_witness:
  "filter (\<lambda>c. time c > triggered_at example_long) [bar 1 1.1 1.125] = [] @ bar 1 1.1 1.125 # []
   \<and> \<not> slHit example_long (bar 1 1.1 1.125)
   \<and> tpHit example_long (bar 1 1.1 1.125) (take_profits example_long ! 0)
   \<and> tpHit example_long (bar 1 1.1 1.125) (take_profits example_long ! 1)
   \<and> (\<exists>u. checkTriggeredSignal 100 example_long [bar 1 1.1 1.125] = Some u
          \<and> hit (detail u) = ''tp1'' \<and> hitPrice (detail u) = 1.11 \<and> closed_at u = 1)"
proof -
  have h1: "filter (\<lambda>c. time c > triggered_at example_long) [bar 1 1.1 1.125]
            = [] @ bar 1 1.1 1.125 # []"
    by (simp add: example_long_def bar_def)
  have h2: "\<forall>b \<in> set []. \<not> fires example_long b" by simp
  have h3: "\<not> slHit example_long (bar 1 1.1 1.125)"
    by (simp add: slHit_def example_long_def bar_def)
  have h4: "0 < length (take_profits example_long)" by (simp add: example_long_def)
  have h5: "tpHit example_long (bar 1 1.1 1.125) (take_profits example_long ! 0)"
    by (simp add: tpHit_def example_long_def bar_def)
  have h6: "\<forall>j < 0. \<not> tpHit example_long (bar 1 1.1 1.125) (take_profits example_long ! j)"
    by simp
  have h7: "tpHit example_long (bar 1 1.1 1.125) (take_profits example_long ! 1)"
    by (simp add: tpHit_def example_long_def bar_def)
  have s: "''tp'' @ show_nat (0 + 1) = ''tp1''"
    by (simp add: show_nat.simps digit_char_def)
  have v: "take_profits example_long ! 0 = 1.11" "time (bar 1 1.1 1.125) = 1"
    by (simp_all add: example_long_def bar_def)
  from tp_first_index [OF h1 h2 h3 h4 h5 h6, of 100] s v
  have "\<exists>u. checkTriggeredSignal 100 example_long [bar 1 1.1 1.125] = Some u
          \<and> hit (detail u) = ''tp1'' \<and> hitPrice (detail u) = 1.11 \<and> closed_at u = 1"
    by simp
  with h1 h3 h5 h7 show ?thesis by blast
qed

section \<open>Exit checking: the order of the fetched bars\<close>

lemma length_out_of_order_fetch: "length out_of_order_fetch = 50"
  by (simp add: out_of_order_fetch_def earlier_bars_def)

lemma after_trigger_out_of_order:
  "filter (\<lambda>c. time c > triggered_at example_long) out_of_order_fetch
   = [bar 2 1.1 1.125, bar 1 1.09 1.1]"
  by (simp add: out_of_order_fetch_def earlier_bars_def filter_map comp_def bar_def
        example_long_def)

lemma after_trigger_sorted:
  "filter (\<lambda>c. time c > triggered_at example_long) (sort_key time out_of_order_fetch)
   = [bar 1 1.09 1.1, bar 2 1.1 1.125]"
proof -
  have "filter (\<lambda>c. time c > triggered_at example_long) (sort_key time out_of_order_fetch)
        = sort_key time (filter (\<lambda>c. time c > triggered_at example_long) out_of_order_fetch)"
    by (rule filter_sort)
  also have "\<dots> = [bar 1 1.09 1.1, bar 2 1.1 1.125]"
    unfolding after_trigger_out_of_order by (simp add: bar_def)
  finally show ?thesis .
qed

lemma run_out_of_order:
  "checkTriggeredSignal 100 example_long out_of_order_fetch
   = Some \<lparr> signal_id = 1, status = ''win'', closed_at = 2, outcome = ''win'',
            detail = \<lparr> hit = ''tp1'', rr = 2, hitPrice = 1.11, hitTime = 2 \<rparr> \<rparr>"
  unfolding checkTriggeredSignal_def after_trigger_out_of_order
  by (simp add: check_candle_def slHit_def tpHit_def closing_update_def calculateRMultiple_def
        determineOutcome_def createOutcomeDetail_def math_round_def startsWith_def
        example_long_def bar_def show_nat.simps digit_char_def Let_def)

lemma run_in_order:
  "checkTriggeredSignal 100 example_long (sort_key time out_of_order_fetch)
   = Some \<lparr> signal_id = 1, status = ''loss'', closed_at = 1, outcome = ''loss'',
            detail = \<lparr> hit = ''sl'', rr = - 1, hitPrice = 1.095, hitTime = 1 \<rparr> \<rparr>"
  unfolding checkTriggeredSignal_def after_trigger_sorted
  by (simp add: check_candle_def slHit_def tpHit_def closing_update_def calculateRMultiple_def
        determineOutcome_def createOutcomeDetail_def math_round_def startsWith_def
        example_long_def bar_def Let_def)


text \<open>
  Claim C9.  The run on the fifty-bar fetch above, and on the same bars sorted by
  ascending timestamp.  The bars are scanned as fetched: the run records a win on \<open>tp1\<close>
  at time 2, where the bars in timestamp order give a loss on the stop-loss at time 1.
\<close>

theorem out_of_order_fetch_transition:
  "length out_of_order_fetch = 50
   \<and> checkTriggeredSignal 100 example_long out_of_order_fetch
       = Some \<lparr> signal_id = 1, status = ''win'', closed_at = 2, outcome = ''win'',
                detail = \<lparr> hit = ''tp1'', rr = 2, hitPrice = 1.11, hitTime = 2 \<rparr> \<rparr>
   \<and> checkTriggeredSignal 100 example_long (sort_key time out_of_order_fetch)
       = Some \<lparr> signal_id = 1, status = ''loss'', closed_at = 1, outcome = ''loss'',
                detail = \<lparr> hit = ''sl'', rr = - 1, hitPrice = 1.095, hitTime = 1 \<rparr> \<rparr>"
  by (simp add: length_out_of_order_fetch run_out_of_order run_in_order)

section \<open>Moving average: shape and recurrence\<close>

lemma foldl_plus_sum_list: "foldl (+) a xs = a + sum_list (xs :: real list)"
  by (induction xs arbitrary: a) simp_all

lemma length_ema_loop [simp]: "length (ema_loop m prev ps) = length ps"
  by (induction ps arbitrary: prev) (simp_all add: Let_def)

lemma ema_loop_step:
  "k < length ps \<Longrightarrow>
     \<exists>e. (Some prev # ema_loop m prev ps) ! k = Some e
        \<and> (Some prev # ema_loop m prev ps) ! Suc k = Some ((ps ! k - e) * m + e)"
proof (induction ps arbitrary: prev k)
  case Nil
  then show ?case by simp
next
  case (Cons p ps)
  show ?case
  proof (cases k)
    case 0
    then show ?thesis by (simp add: Let_def)
  next
    case (Suc k')
    with Cons.prems have "k' < length ps" by simp
    from Cons.IH[OF this, of "(p - prev) * m + prev"] Suc
    show ?thesis by (simp add: Let_def)
  qed
qed

text \<open>
  Claim C5.  For a period \<open>p\<close> with \<open>1 \<le> p \<le> n\<close>, where \<open>n\<close> is the number of prices,
  \<open>calculateEMA\<close> returns \<open>n\<close> entries; those before index \<open>p - 1\<close> are undefined; the
  entry at \<open>p - 1\<close> is the arithmetic mean of the first \<open>p\<close> prices; and each entry at
  \<open>i \<ge> p\<close> is \<open>(price[i] - ema[i-1]) * (2 / (p + 1)) + ema[i-1]\<close>, the entry before it being
  defined.  When \<open>n < p\<close> every entry is undefined.
\<close>

theorem calculateEMA_shape:
  "(1 \<le> period \<and> period \<le> int (length prices) \<longrightarrow>
      length (calculateEMA prices period) = length prices
      \<and> (\<forall>i. int i < period - 1 \<longrightarrow> calculateEMA prices period ! i = None)
      \<and> calculateEMA prices period ! (nat period - 1)
          = Some (sum_list (take (nat period) prices) / of_int period)
      \<and> (\<forall>i. period \<le> int i \<and> i < length prices \<longrightarrow>
            (\<exists>e. calculateEMA prices period ! (i - 1) = Some e
               \<and> calculateEMA prices period ! i
                   = Some ((prices ! i - e) * (2 / (of_int period + 1)) + e))))
   \<and> (int (length prices) < period \<longrightarrow>
        length (calculateEMA prices period) = length prices
        \<and> (\<forall>i < length prices. calculateEMA prices period ! i = None))"
proof (intro conjI impI)
  assume a: "1 \<le> period \<and> period \<le> int (length prices)"
  define p where "p = nat period"
  define m :: real where "m = 2 / (of_int period + 1)"
  define sma :: real where "sma = sum_list (take p prices) / of_int period"
  from a have p: "1 \<le> p" "p \<le> length prices" by (auto simp: p_def)
  from a have pp: "period = int p" by (simp add: p_def)
  from p have ne: "prices \<noteq> []" by auto
  have ema: "calculateEMA prices period
             = replicate (p - 1) None @ (Some sma # ema_loop m sma (drop p prices))"
    using a ne by (simp add: calculateEMA_def Let_def p_def m_def sma_def foldl_plus_sum_list)
  show "length (calculateEMA prices period) = length prices"
    using p by (simp add: ema)
  show "\<forall>i. int i < period - 1 \<longrightarrow> calculateEMA prices period ! i = None"
  proof (intro allI impI)
    fix i assume "int i < period - 1"
    then have "i < p - 1" using pp by simp
    then show "calculateEMA prices period ! i = None" by (simp add: ema nth_append)
  qed
  show "calculateEMA prices period ! (nat period - 1)
          = Some (sum_list (take (nat period) prices) / of_int period)"
    using p by (simp add: ema nth_append sma_def p_def)
  show "\<forall>i. period \<le> int i \<and> i < length prices \<longrightarrow>
            (\<exists>e. calculateEMA prices period ! (i - 1) = Some e
               \<and> calculateEMA prices period ! i
                   = Some ((prices ! i - e) * (2 / (of_int period + 1)) + e))"
  proof (intro allI impI)
    fix i assume i: "period \<le> int i \<and> i < length prices"
    define k where "k = i - p"
    from i p pp have k: "k < length (drop p prices)" "i = p + k" by (auto simp: k_def)
    from ema_loop_step[OF k(1), of sma m] obtain e where
      e: "(Some sma # ema_loop m sma (drop p prices)) ! k = Some e"
         "(Some sma # ema_loop m sma (drop p prices)) ! Suc k = Some ((drop p prices ! k - e) * m + e)"
      by blast
    have i1: "i - 1 = length (replicate (p - 1) (None :: real option)) + k"
      and i2: "i = length (replicate (p - 1) (None :: real option)) + Suc k"
      using p k by simp_all
    have 1: "calculateEMA prices period ! (i - 1) = (Some sma # ema_loop m sma (drop p prices)) ! k"
      unfolding ema i1 by (rule nth_append_length_plus)
    have 2: "calculateEMA prices period ! i = (Some sma # ema_loop m sma (drop p prices)) ! Suc k"
      unfolding ema by (subst i2) (rule nth_append_length_plus)
    have 3: "drop p prices ! k = prices ! i" using p k by simp
    show "\<exists>e. calculateEMA prices period ! (i - 1) = Some e
               \<and> calculateEMA prices period ! i
                   = Some ((prices ! i - e) * (2 / (of_int period + 1)) + e)"
      using e 1 2 3 by (simp add: m_def)
  qed
next
  assume "int (length prices) < period"
  then show "length (calculateEMA prices period) = length prices"
    by (simp add: calculateEMA_def)
next
  assume "int (length prices) < period"
  then show "\<forall>i < length prices. calculateEMA prices period ! i = None"
    by (simp add: calculateEMA_def)
qed

theorem calculateEMA_shape_witness:
  "(1::int) \<le> 2 \<and> (2::int) \<le> int (length [1, 2, 4 :: real])
   \<and> calculateEMA [1, 2, 4] 2 = [None, Some (3 / 2), Some (19 / 6)]
   \<and> int (length [1 :: real]) < 2
   \<and> calculateEMA [1] 2 = [None]"
  using calculateEMA_shape [of 2 "[1, 2, 4]"] calculateEMA_shape [of 2 "[1]"]
  by (simp add: calculateEMA_def Let_def)

section \<open>Clustering: members, anchors and levels\<close>

lemma cluster_loop_groups:
  "cluster_loop th cur (map cluster_of gs) rest = map cluster_of (group_loop th cur gs rest)"
proof (induction rest arbitrary: cur gs)
  case Nil
  show ?case by simp
next
  case (Cons s rest)
  have joined: "cluster_loop th (cur @ [s]) (map cluster_of gs) rest
                = map cluster_of (group_loop th (cur @ [s]) gs rest)"
    by (rule Cons.IH)
  have fresh: "cluster_loop th [s] (map cluster_of gs) rest
               = map cluster_of (group_loop th [s] gs rest)"
    by (rule Cons.IH)
  have pushed: "cluster_loop th [s] (map cluster_of gs @ [cluster_of cur]) rest
                = map cluster_of (group_loop th [s] (gs @ [cur]) rest)"
    using Cons.IH [of "[s]" "gs @ [cur]"] by simp
  show ?case using joined fresh pushed by (simp add: Let_def)
qed

lemma clusterSwings_members:
  "clusterSwings sw th = map cluster_of (cluster_members sw th)"
  using cluster_loop_groups [of th _ "[]"]
  by (simp add: clusterSwings_def cluster_members_def Let_def)

lemma concat_group_loop:
  "concat (group_loop th cur gs rest) = concat gs @ cur @ rest"
  by (induction rest arbitrary: cur gs) (simp_all add: Let_def)

lemma concat_cluster_members:
  "concat (cluster_members sw th) = sort_key price sw"
proof (cases "sw = []")
  case True
  then show ?thesis by (simp add: cluster_members_def)
next
  case False
  then have "sort_key price sw \<noteq> []"
    by (metis length_sort length_0_conv)
  then show ?thesis
    using False by (simp add: cluster_members_def Let_def concat_group_loop)
qed

lemma group_loop_nonempty:
  "\<lbrakk>cur \<noteq> []; \<forall>g \<in> set gs. g \<noteq> []\<rbrakk> \<Longrightarrow> \<forall>g \<in> set (group_loop th cur gs rest). g \<noteq> []"
proof (induction rest arbitrary: cur gs)
  case Nil
  then show ?case by simp
next
  case (Cons s rest)
  show ?case
  proof (cases "\<bar>price s - price (hd cur)\<bar> \<le> th")
    case True
    have "\<forall>g \<in> set (group_loop th (cur @ [s]) gs rest). g \<noteq> []"
      by (rule Cons.IH) (use Cons.prems in simp_all)
    with True show ?thesis by simp
  next
    case False
    have "\<forall>g \<in> set (group_loop th [s] (gs @ [cur]) rest). g \<noteq> []"
      by (rule Cons.IH) (use Cons.prems in simp_all)
    with False Cons.prems(1) show ?thesis by simp
  qed
qed

lemma cluster_members_nonempty: "\<forall>g \<in> set (cluster_members sw th). g \<noteq> []"
proof (cases "sw = []")
  case True
  then show ?thesis by (simp add: cluster_members_def)
next
  case False
  have "\<forall>g \<in> set (group_loop th [hd (sort_key price sw)] [] (tl (sort_key price sw))). g \<noteq> []"
    by (rule group_loop_nonempty) simp_all
  with False show ?thesis by (simp add: cluster_members_def Let_def)
qed

lemma group_loop_within:
  "\<lbrakk>cur \<noteq> []; within_anchor th cur; \<forall>g \<in> set gs. within_anchor th g; 0 \<le> th\<rbrakk>
     \<Longrightarrow> \<forall>g \<in> set (group_loop th cur gs rest). within_anchor th g"
proof (induction rest arbitrary: cur gs)
  case Nil
  then show ?case by simp
next
  case (Cons s rest)
  show ?case
  proof (cases "\<bar>price s - price (hd cur)\<bar> \<le> th")
    case True
    have joined: "within_anchor th (cur @ [s])"
      using Cons.prems(1,2) True by (simp add: within_anchor_def)
    have "\<forall>g \<in> set (group_loop th (cur @ [s]) gs rest). within_anchor th g"
      by (rule Cons.IH) (use Cons.prems joined in simp_all)
    with True show ?thesis by simp
  next
    case False
    have single: "within_anchor th [s]"
      using Cons.prems(4) by (simp add: within_anchor_def)
    have "\<forall>g \<in> set (group_loop th [s] (gs @ [cur]) rest). within_anchor th g"
      by (rule Cons.IH) (use Cons.prems single in simp_all)
    with False Cons.prems(1) show ?thesis by simp
  qed
qed

lemma cluster_members_within:
  assumes "0 \<le> th"
  shows "\<forall>g \<in> set (cluster_members sw th). within_anchor th g"
proof (cases "sw = []")
  case True
  then show ?thesis by (simp add: cluster_members_def)
next
  case False
  have "\<forall>g \<in> set (group_loop th [hd (sort_key price sw)] [] (tl (sort_key price sw))).
          within_anchor th g"
    by (rule group_loop_within) (use assms in \<open>simp_all add: within_anchor_def\<close>)
  with False show ?thesis by (simp add: cluster_members_def Let_def)
qed

lemma successively_snoc:
  "successively P (xs @ [y]) \<longleftrightarrow> successively P xs \<and> (xs = [] \<or> P (last xs) y)"
  by (induction xs) (auto simp: successively_Cons)

lemma group_loop_apart:
  "\<lbrakk>cur \<noteq> []; successively (apart th) (gs @ [cur])\<rbrakk>
     \<Longrightarrow> successively (apart th) (group_loop th cur gs rest)"
proof (induction rest arbitrary: cur gs)
  case Nil
  then show ?case by simp
next
  case (Cons s rest)
  from Cons.prems(2) have gs: "successively (apart th) gs"
    and lst: "gs = [] \<or> apart th (last gs) cur"
    unfolding successively_snoc by blast+
  show ?case
  proof (cases "\<bar>price s - price (hd cur)\<bar> \<le> th")
    case True
    have "hd (cur @ [s]) = hd cur" using Cons.prems(1) by simp
    with gs lst have joined: "successively (apart th) (gs @ [cur @ [s]])"
      unfolding successively_snoc by simp
    have "successively (apart th) (group_loop th (cur @ [s]) gs rest)"
      by (rule Cons.IH) (use joined in simp_all)
    with True show ?thesis by simp
  next
    case False
    then have "apart th cur [s]" by simp
    with Cons.prems(2) have pushed: "successively (apart th) ((gs @ [cur]) @ [[s]])"
      unfolding successively_snoc [of _ "gs @ [cur]"] by simp
    have "successively (apart th) (group_loop th [s] (gs @ [cur]) rest)"
      by (rule Cons.IH) (use pushed in simp_all)
    with False Cons.prems(1) show ?thesis by simp
  qed
qed

lemma cluster_members_apart: "successively (apart th) (cluster_members sw th)"
proof (cases "sw = []")
  case True
  then show ?thesis by (simp add: cluster_members_def)
next
  case False
  have "successively (apart th)
          (group_loop th [hd (sort_key price sw)] [] (tl (sort_key price sw)))"
    by (rule group_loop_apart) simp_all
  with False show ?thesis by (simp add: cluster_members_def Let_def)
qed

lemma foldl_price_sum: "foldl (\<lambda>sum s. sum + price s) a g = a + sum_list (map price g)"
  by (induction g arbitrary: a) simp_all

lemma cluster_of_fields:
  "avgPrice (cluster_of g) = sum_list (map price g) / real (length g)"
  "touches (cluster_of g) = length g"
  by (simp_all add: cluster_of_def foldl_price_sum)

lemma set_identifySRLevels:
  "0 < atr \<Longrightarrow> set (identifySRLevels hs ls atr f)
     = (\<lambda>g. level_of ''resistance'' (cluster_of g)) ` set (cluster_members hs (atr * f))
       \<union> (\<lambda>g. level_of ''support'' (cluster_of g)) ` set (cluster_members ls (atr * f))"
  by (auto simp: identifySRLevels_def Let_def clusterSwings_members)

lemma clusterSwings_mean_count:
  "clusterSwings sw th
   = map (\<lambda>g. \<lparr> avgPrice = sum_list (map price g) / real (length g), touches = length g \<rparr>)
       (cluster_members sw th)"
  by (simp add: clusterSwings_members cluster_of_def foldl_price_sum)

lemma identifySRLevels_members:
  assumes "0 < atr"
  shows "identifySRLevels hs ls atr f
         = sort_key (\<lambda>l. - level_price l)
             (map (\<lambda>g. \<lparr> level_price = sum_list (map price g) / real (length g),
                          level_type = ''resistance'', level_touches = length g \<rparr>)
                  (cluster_members hs (atr * f))
              @ map (\<lambda>g. \<lparr> level_price = sum_list (map price g) / real (length g),
                            level_type = ''support'', level_touches = length g \<rparr>)
                  (cluster_members ls (atr * f)))"
  using assms
  by (simp add: identifySRLevels_def Let_def clusterSwings_mean_count level_of_def comp_def)

text \<open>
  Claim C6.  For a positive threshold, the clusters of \<open>clusterSwings\<close> are consecutive
  runs of the swings sorted by ascending price; every member of a cluster is within the
  threshold of the cluster's first member, and the first members of adjacent clusters are
  further apart than the threshold (a swing joins the open cluster whenever it can).  The
  cluster returned for a run has the arithmetic mean of the members' prices as its price
  and the number of members as its touches.  The levels \<open>identifySRLevels\<close> returns are,
  in descending order of price, one level per cluster of the swing highs and one per
  cluster of the swing lows: its price is the mean of the members' prices, its kind
  \<open>resistance\<close> or \<open>support\<close>, its touches the number of members.
\<close>

theorem clustering_against_anchor:
  assumes "0 < th"
  shows "concat (cluster_members sw th) = sort_key price sw
       \<and> (\<forall>g \<in> set (cluster_members sw th).
             g \<noteq> [] \<and> (\<forall>s \<in> set g. \<bar>price s - price (hd g)\<bar> \<le> th))
       \<and> successively (\<lambda>g g'. th < \<bar>price (hd g') - price (hd g)\<bar>) (cluster_members sw th)
       \<and> clusterSwings sw th
           = map (\<lambda>g. \<lparr> avgPrice = sum_list (map price g) / real (length g),
                         touches = length g \<rparr>)
               (cluster_members sw th)
       \<and> (0 < atr \<longrightarrow>
            identifySRLevels hs ls atr f
            = sort_key (\<lambda>l. - level_price l)
                (map (\<lambda>g. \<lparr> level_price = sum_list (map price g) / real (length g),
                             level_type = ''resistance'', level_touches = length g \<rparr>)
                     (cluster_members hs (atr * f))
                 @ map (\<lambda>g. \<lparr> level_price = sum_list (map price g) / real (length g),
                               level_type = ''support'', level_touches = length g \<rparr>)
                     (cluster_members ls (atr * f))))"
proof (intro conjI)
  show "concat (cluster_members sw th) = sort_key price sw"
    by (rule concat_cluster_members)
  show "\<forall>g \<in> set (cluster_members sw th).
          g \<noteq> [] \<and> (\<forall>s \<in> set g. \<bar>price s - price (hd g)\<bar> \<le> th)"
    using assms cluster_members_within [of th sw] cluster_members_nonempty [of sw th]
    by (simp add: within_anchor_def)
  show "successively (\<lambda>g g'. th < \<bar>price (hd g') - price (hd g)\<bar>) (cluster_members sw th)"
    by (rule cluster_members_apart)
  show "clusterSwings sw th
           = map (\<lambda>g. \<lparr> avgPrice = sum_list (map price g) / real (length g),
                         touches = length g \<rparr>)
               (cluster_members sw th)"
    by (rule clusterSwings_mean_count)
  show "0 < atr \<longrightarrow>
            identifySRLevels hs ls atr f
            = sort_key (\<lambda>l. - level_price l)
                (map (\<lambda>g. \<lparr> level_price = sum_list (map price g) / real (length g),
                             level_type = ''resistance'', level_touches = length g \<rparr>)
                     (cluster_members hs (atr * f))
                 @ map (\<lambda>g. \<lparr> level_price = sum_list (map price g) / real (length g),
                               level_type = ''support'', level_touches = length g \<rparr>)
                     (cluster_members ls (atr * f)))"
    by (rule impI) (rule identifySRLevels_members)
qed

lemma cluster_members_sample:
  "cluster_members [swing_at 1 0, swing_at 3 1, swing_at 1.2 2, swing_at 1.6 3] 0.5
   = [[swing_at 1 0, swing_at 1.2 2], [swing_at 1.6 3], [swing_at 3 1]]"
  by (simp add: cluster_members_def swing_at_def Let_def)

lemma cluster_members_lows_sample:
  "cluster_members [swing_at 0.5 4, swing_at 0.9 5] (1 * 0.5) = [[swing_at 0.5 4, swing_at 0.9 5]]"
  by (simp add: cluster_members_def swing_at_def Let_def)

text \<open>
  Four swing highs and two swing lows with threshold \<open>0.5\<close>: the high at \<open>1.6\<close> is within
  the threshold of \<open>1.2\<close> but not of the anchor \<open>1\<close>, so it opens a cluster of its own.
\<close>

theorem clustering_against_anchor_witness:
  "(0::real) < 0.5
   \<and> cluster_members [swing_at 1 0, swing_at 3 1, swing_at 1.2 2, swing_at 1.6 3] 0.5
       = [[swing_at 1 0, swing_at 1.2 2], [swing_at 1.6 3], [swing_at 3 1]]
   \<and> clusterSwings [swing_at 1 0, swing_at 3 1, swing_at 1.2 2, swing_at 1.6 3] 0.5
       = [\<lparr>avgPrice = 1.1, touches = 2\<rparr>, \<lparr>avgPrice = 1.6, touches = 1\<rparr>,
          \<lparr>avgPrice = 3, touches = 1\<rparr>]
   \<and> (0::real) < 1
   \<and> identifySRLevels [swing_at 1 0, swing_at 3 1, swing_at 1.2 2, swing_at 1.6 3]
        [swing_at 0.5 4, swing_at 0.9 5] 1 0.5
       = [\<lparr>level_price = 3, level_type = ''resistance'', level_touches = 1\<rparr>,
          \<lparr>level_price = 1.6, level_type = ''resistance'', level_touches = 1\<rparr>,
          \<lparr>level_price = 1.1, level_type = ''resistance'', level_touches = 2\<rparr>,
          \<lparr>level_price = 0.7, level_type = ''support'', level_touches = 2\<rparr>]"
proof -
  have pos: "(0::real) < 0.5" by simp
  have one: "(0::real) < 1" by simp
  have half: "(1::real) * 0.5 = 0.5" by simp
  note fact = clustering_against_anchor [OF pos,
      where sw = "[swing_at 1 0, swing_at 3 1, swing_at 1.2 2, swing_at 1.6 3]"
        and hs = "[swing_at 1 0, swing_at 3 1, swing_at 1.2 2, swing_at 1.6 3]"
        and ls = "[swing_at 0.5 4, swing_at 0.9 5]" and atr = 1 and f = "0.5"]
  have clusters: "clusterSwings [swing_at 1 0, swing_at 3 1, swing_at 1.2 2, swing_at 1.6 3] 0.5
       = [\<lparr>avgPrice = 1.1, touches = 2\<rparr>, \<lparr>avgPrice = 1.6, touches = 1\<rparr>,
          \<lparr>avgPrice = 3, touches = 1\<rparr>]"
    unfolding fact [THEN conjunct2, THEN conjunct2, THEN conjunct2, THEN conjunct1]
      cluster_members_sample
    by (simp add: swing_at_def)
  have levels: "identifySRLevels [swing_at 1 0, swing_at 3 1, swing_at 1.2 2, swing_at 1.6 3]
        [swing_at 0.5 4, swing_at 0.9 5] 1 0.5
       = [\<lparr>level_price = 3, level_type = ''resistance'', level_touches = 1\<rparr>,
          \<lparr>level_price = 1.6, level_type = ''resistance'', level_touches = 1\<rparr>,
          \<lparr>level_price = 1.1, level_type = ''resistance'', level_touches = 2\<rparr>,
          \<lparr>level_price = 0.7, level_type = ''support'', level_touches = 2\<rparr>]"
    unfolding fact [THEN conjunct2, THEN conjunct2, THEN conjunct2, THEN conjunct2, THEN mp, OF one]
      cluster_members_lows_sample
    unfolding half cluster_members_sample
    by (simp add: swing_at_def)
  from pos one cluster_members_sample clusters levels show ?thesis by simp
qed

lemma sum_list_insort_key:
  "sum_list (map g (insort_key k x xs)) = g x + sum_list (map g xs)" for g :: "'a \<Rightarrow> nat"
  by (induction xs) simp_all

lemma sum_list_sort_key:
  "sum_list (map g (sort_key k xs)) = sum_list (map g xs)" for g :: "'a \<Rightarrow> nat"
  by (induction xs) (simp_all add: sum_list_insort_key)

lemma sum_touches_clusterSwings:
  "sum_list (map touches (clusterSwings sw th)) = length sw"
proof -
  have "sum_list (map touches (clusterSwings sw th))
        = sum_list (map length (cluster_members sw th))"
    by (simp add: clusterSwings_members comp_def cluster_of_fields)
  also have "\<dots> = length (concat (cluster_members sw th))"
    by (simp add: length_concat)
  also have "\<dots> = length sw"
    by (simp add: concat_cluster_members)
  finally show ?thesis .
qed

lemma touches_of_type_levels:
  "touches_of_type kind (map (level_of kind') cs)
   = (if kind' = kind then sum_list (map touches cs) else 0)"
  by (induction cs) (auto simp: touches_of_type_def level_of_def)

lemma touches_of_type_append:
  "touches_of_type kind (xs @ ys) = touches_of_type kind xs + touches_of_type kind ys"
  by (simp add: touches_of_type_def)

lemma touches_of_type_sort_key:
  "touches_of_type kind (sort_key k xs) = touches_of_type kind xs"
  by (simp add: touches_of_type_def filter_sort sum_list_sort_key)

text \<open>
  Claim C10.  For \<open>atrValue > 0\<close> every level returned by \<open>identifySRLevels\<close> has at
  least one touch, the touches of the resistance levels add up to the number of swing
  highs, and the touches of the support levels add up to the number of swing lows.
\<close>

theorem levels_partition_swings:
  assumes "0 < atr"
  shows "(\<forall>l \<in> set (identifySRLevels hs ls atr f). 1 \<le> level_touches l)
       \<and> touches_of_type ''resistance'' (identifySRLevels hs ls atr f) = length hs
       \<and> touches_of_type ''support'' (identifySRLevels hs ls atr f) = length ls"
proof (intro conjI)
  show "\<forall>l \<in> set (identifySRLevels hs ls atr f). 1 \<le> level_touches l"
  proof
    fix l assume "l \<in> set (identifySRLevels hs ls atr f)"
    then obtain g kind where g: "g \<in> set (cluster_members hs (atr * f)) \<union> set (cluster_members ls (atr * f))"
      and l: "l = level_of kind (cluster_of g)"
      unfolding set_identifySRLevels [OF assms] by blast
    from g have "g \<noteq> []" using cluster_members_nonempty by blast
    then have "1 \<le> length g" by (cases g) simp_all
    with l show "1 \<le> level_touches l" by (simp add: level_of_def cluster_of_fields)
  qed
  show "touches_of_type ''resistance'' (identifySRLevels hs ls atr f) = length hs"
    using assms
    by (simp add: identifySRLevels_def Let_def touches_of_type_sort_key touches_of_type_append
          touches_of_type_levels sum_touches_clusterSwings)
  show "touches_of_type ''support'' (identifySRLevels hs ls atr f) = length ls"
    using assms
    by (simp add: identifySRLevels_def Let_def touches_of_type_sort_key touches_of_type_append
          touches_of_type_levels sum_touches_clusterSwings)
qed

lemma levels_sample:
  "identifySRLevels [swing_at 1 0, swing_at 3 1, swing_at 1.2 2] [swing_at 0.5 3, swing_at 0.6 4] 1 0.5
   = [\<lparr>level_price = 3, level_type = ''resistance'', level_touches = 1\<rparr>,
      \<lparr>level_price = 1.1, level_type = ''resistance'', level_touches = 2\<rparr>,
      \<lparr>level_price = 0.55, level_type = ''support'', level_touches = 2\<rparr>]"
  by (simp add: identifySRLevels_def clusterSwings_def level_of_def cluster_of_def
        swing_at_def Let_def)

theorem levels_partition_swings_witness:
  "(0::real) < 1
   \<and> identifySRLevels [swing_at 1 0, swing_at 3 1, swing_at 1.2 2] [swing_at 0.5 3, swing_at 0.6 4] 1 0.5
     = [\<lparr>level_price = 3, level_type = ''resistance'', level_touches = 1\<rparr>,
        \<lparr>level_price = 1.1, level_type = ''resistance'', level_touches = 2\<rparr>,
        \<lparr>level_price = 0.55, level_type = ''support'', level_touches = 2\<rparr>]
   \<and> touches_of_type ''resistance''
        (identifySRLevels [swing_at 1 0, swing_at 3 1, swing_at 1.2 2] [swing_at 0.5 3, swing_at 0.6 4] 1 0.5)
       = 3
   \<and> touches_of_type ''support''
        (identifySRLevels [swing_at 1 0, swing_at 3 1, swing_at 1.2 2] [swing_at 0.5 3, swing_at 0.6 4] 1 0.5)
       = 2"
proof -
  have pos: "(0::real) < 1" by simp
  from levels_partition_swings [OF pos, of "[swing_at 1 0, swing_at 3 1, swing_at 1.2 2]"
      "[swing_at 0.5 3, swing_at 0.6 4]" "0.5"] levels_sample
  show ?thesis by simp
qed

section \<open>Candidate filter: rejections, reasons and the momentum heuristic\<close>

lemma replicate_numeral: "replicate (numeral n) c = [c] @ replicate (pred_numeral n) c"
  by (simp only: numeral_eq_Suc replicate_Suc append_Cons append_Nil)

lemma show_nat_small: "n < 10 \<Longrightarrow> show_nat n = [digit_char n]"
  by (simp add: show_nat.simps)

lemma show_nat_large: "\<not> n < 10 \<Longrightarrow> show_nat n = show_nat (n div 10) @ [digit_char (n mod 10)]"
  by (subst show_nat.simps) simp

lemmas show_nat_eval = show_nat_small show_nat_large digit_char_def

lemmas heuristic_defs = checkTrendAlignedEngulfing_def checkPinBarAtStructure_def
  checkPullbackIntoTrend_def checkRSIDivergence_def checkReversalAtSR_def

lemmas sample_defs = sample_indicators_def quiet_patterns_def flat_candles_def swing_at_def
  bar_def

lemmas prefilter_eval = applyPrefilters_def prefilter_reasons_def heuristic_defs falsy_def
  num_def getMinimumATR_def push_if_def count_true_def toFixed_def show_nat_eval
  replicate_numeral Let_def

subsection \<open>Every reason string is non-empty\<close>

lemma engulfing_nonempty: "checkTrendAlignedEngulfing ind = Some s \<Longrightarrow> s \<noteq> []"
  by (auto simp: checkTrendAlignedEngulfing_def split: if_splits)

lemma pin_nonempty: "checkPinBarAtStructure ind c = Some s \<Longrightarrow> s \<noteq> []"
  by (auto simp: checkPinBarAtStructure_def split: option.splits if_splits)

lemma pullback_nonempty: "checkPullbackIntoTrend cs ind = Some s \<Longrightarrow> s \<noteq> []"
  by (auto simp: checkPullbackIntoTrend_def Let_def split: if_splits)

lemma rsi_nonempty: "checkRSIDivergence cs ind = Some s \<Longrightarrow> s \<noteq> []"
  by (auto simp: checkRSIDivergence_def split: if_splits)

lemma reversal_nonempty: "checkReversalAtSR ind = Some s \<Longrightarrow> s \<noteq> []"
  by (auto simp: checkReversalAtSR_def split: option.splits if_splits)

lemma push_if_triggered:
  "(\<And>s. r = Some s \<Longrightarrow> s \<noteq> []) \<Longrightarrow> push_if r rs = rs @ triggered r"
  by (cases r) (simp_all add: push_if_def triggered_def)

lemma prefilter_reasons_triggered:
  "prefilter_reasons candles ind mode
   = triggered (checkTrendAlignedEngulfing ind)
     @ triggered (checkPinBarAtStructure ind (last candles))
     @ triggered (checkPullbackIntoTrend candles ind)
     @ (if mode = ''aggressive'' then triggered (checkRSIDivergence candles ind) else [])
     @ triggered (checkReversalAtSR ind)"
  by (simp add: prefilter_reasons_def Let_def
        push_if_triggered [OF engulfing_nonempty] push_if_triggered [OF pin_nonempty]
        push_if_triggered [OF pullback_nonempty] push_if_triggered [OF rsi_nonempty]
        push_if_triggered [OF reversal_nonempty])

lemma triggered_nonempty: "s \<in> set (triggered r) \<Longrightarrow> (\<And>t. r = Some t \<Longrightarrow> t \<noteq> []) \<Longrightarrow> s \<noteq> []"
  by (cases r) (simp_all add: triggered_def)

lemma prefilter_reasons_nonempty: "s \<in> set (prefilter_reasons candles ind mode) \<Longrightarrow> s \<noteq> []"
  unfolding prefilter_reasons_triggered
  by (auto dest: triggered_nonempty engulfing_nonempty pin_nonempty pullback_nonempty
        rsi_nonempty reversal_nonempty split: if_splits)

lemma filter_reasons_id:
  "filter (\<lambda>s. s \<noteq> []) (prefilter_reasons candles ind mode) = prefilter_reasons candles ind mode"
  by (rule filter_True) (simp add: prefilter_reasons_nonempty)

lemma applyPrefilters_passes:
  "passes candles ind \<Longrightarrow>
     applyPrefilters candles ind mode
     = (if prefilter_reasons candles ind mode = [] then \<lparr> isCandidate = False, reason = [] \<rparr>
        else \<lparr> isCandidate = True, reason = join '' + '' (prefilter_reasons candles ind mode) \<rparr>)"
  by (simp add: applyPrefilters_def passes_def Let_def filter_reasons_id)

lemma gates_ignore_heuristic_inputs:
  assumes "\<not> passes candles ind"
  shows "applyPrefilters candles (ind \<lparr> patterns := pats, swings := sws, rsi14 := r \<rparr>) mode'
         = applyPrefilters candles ind mode"
  using assms by (auto simp: applyPrefilters_def passes_def Let_def)


lemma sample_passes: "passes (flat_candles 50) (sample_indicators r his los near pats)"
  by (simp add: passes_def sample_defs falsy_def num_def getMinimumATR_def)

lemma sample_three_reasons:
  "applyPrefilters (flat_candles 50)
     (sample_indicators 25 [swing_at 1.1 5, swing_at 1.2 12] [swing_at 0.9 3, swing_at 0.95 9]
        (Some \<lparr>level_price = 1, level_type = ''support'', level_touches = 2\<rparr>)
        (quiet_patterns \<lparr> bullishPin := \<lparr>detected = True, description = []\<rparr> \<rparr>)) ''aggressive''
   = \<lparr> isCandidate = True,
       reason = ''Bullish pin bar at support level (1.00000) + RSI oversold with potential bullish divergence + Reversal setup at strong support (2 touches)'' \<rparr>"
  by (simp add: prefilter_eval sample_defs)

lemma sample_small_atr:
  "applyPrefilters (flat_candles 50)
     ((sample_indicators 25 [] [] None quiet_patterns) \<lparr> atr14 := Some 0.00004 \<rparr>) ''conservative''
   = \<lparr> isCandidate = False,
       reason = ''ATR too small (0.00004 < 0.00010), insufficient volatility'' \<rparr>"
  by (simp add: prefilter_eval sample_defs)

lemma sample_no_reason:
  "applyPrefilters (flat_candles 50) (sample_indicators 50 [] [] None quiet_patterns) ''aggressive''
   = \<lparr> isCandidate = False, reason = [] \<rparr>"
  by (simp add: prefilter_eval sample_defs)

lemma sample_missing:
  "applyPrefilters (flat_candles 50)
     ((sample_indicators 25 [] [] None quiet_patterns) \<lparr> atr14 := None \<rparr>) ''aggressive''
   = \<lparr> isCandidate = False, reason = ''Missing required indicators'' \<rparr>"
  by (simp add: applyPrefilters_def sample_defs falsy_def)

lemma sample_zero_ma:
  "applyPrefilters (flat_candles 50)
     ((sample_indicators 25 [] [] None quiet_patterns) \<lparr> ema200 := Some 0 \<rparr>) ''aggressive''
   = \<lparr> isCandidate = False, reason = ''Missing required indicators'' \<rparr>"
  by (simp add: applyPrefilters_def sample_defs falsy_def)

lemma sample_choppy:
  "applyPrefilters (flat_candles 50)
     ((sample_indicators 25 [swing_at 1.1 5, swing_at 1.2 12] [swing_at 0.9 3, swing_at 0.95 9]
         None quiet_patterns)
        \<lparr> trend := \<lparr> trend_direction = ''choppy'', strength = ''weak'', trend_description = [] \<rparr> \<rparr>)
     ''aggressive''
   = \<lparr> isCandidate = False, reason = ''Choppy market with flat EMAs, no clear trend'' \<rparr>"
  by (simp add: applyPrefilters_def sample_defs falsy_def num_def getMinimumATR_def Let_def)

lemma sample_uptrend:
  "applyPrefilters (flat_candles 48 @ [bar 48 0.99 0.995, bar 49 0.995 1])
     ((sample_indicators 50 [] [] None
         (quiet_patterns \<lparr> bullishEngulfing := \<lparr>detected = True, description = []\<rparr> \<rparr>))
        \<lparr> ema50 := Some 0.995, ema200 := Some 0.98,
          trend := \<lparr> trend_direction = ''uptrend'', strength = ''weak'', trend_description = [] \<rparr> \<rparr>)
     ''conservative''
   = \<lparr> isCandidate = True,
       reason = ''Bullish engulfing in uptrend + Pullback to support in uptrend, bouncing'' \<rparr>"
  by (simp add: prefilter_eval sample_defs ratio_lt_def)


subsection \<open>The momentum-extreme heuristic\<close>

lemma engulfing_prefix: "checkTrendAlignedEngulfing ind = Some s \<Longrightarrow> hd s = CHR ''B''"
  by (auto simp: checkTrendAlignedEngulfing_def split: if_splits)

lemma pin_prefix: "checkPinBarAtStructure ind c = Some s \<Longrightarrow> hd s = CHR ''B''"
  by (auto simp: checkPinBarAtStructure_def split: option.splits if_splits)

lemma pullback_prefix: "checkPullbackIntoTrend cs ind = Some s \<Longrightarrow> hd s = CHR ''P''"
  by (auto simp: checkPullbackIntoTrend_def Let_def split: if_splits)

lemma reversal_prefix: "checkReversalAtSR ind = Some s \<Longrightarrow> take 2 s = ''Re''"
  by (auto simp: checkReversalAtSR_def split: option.splits if_splits)

lemma triggered_Some: "s \<in> set (triggered r) \<longleftrightarrow> r = Some s"
  by (cases r) (auto simp: triggered_def)

lemma other_reasons_prefix:
  assumes "s \<in> set (triggered (checkTrendAlignedEngulfing ind))
           \<union> set (triggered (checkPinBarAtStructure ind c))
           \<union> set (triggered (checkPullbackIntoTrend cs ind))
           \<union> set (triggered (checkReversalAtSR ind))"
  shows "s \<noteq> ''RSI oversold with potential bullish divergence''
         \<and> s \<noteq> ''RSI overbought with potential bearish divergence''"
proof -
  from assms consider "checkTrendAlignedEngulfing ind = Some s"
    | "checkPinBarAtStructure ind c = Some s"
    | "checkPullbackIntoTrend cs ind = Some s"
    | "checkReversalAtSR ind = Some s"
    by (auto simp: triggered_Some)
  then show ?thesis
  proof cases
    case 1
    from engulfing_prefix [OF 1] show ?thesis by auto
  next
    case 2
    from pin_prefix [OF 2] show ?thesis by auto
  next
    case 3
    from pullback_prefix [OF 3] show ?thesis by auto
  next
    case 4
    from reversal_prefix [OF 4] show ?thesis by auto
  qed
qed

lemma no_rsi_reason_outside_aggressive:
  assumes "mode \<noteq> ''aggressive''" "s \<in> set (prefilter_reasons candles ind mode)"
  shows "s \<noteq> ''RSI oversold with potential bullish divergence''
         \<and> s \<noteq> ''RSI overbought with potential bearish divergence''"
proof (rule other_reasons_prefix)
  show "s \<in> set (triggered (checkTrendAlignedEngulfing ind))
           \<union> set (triggered (checkPinBarAtStructure ind (last candles)))
           \<union> set (triggered (checkPullbackIntoTrend candles ind))
           \<union> set (triggered (checkReversalAtSR ind))"
    using assms by (auto simp: prefilter_reasons_triggered)
qed

lemma heuristics_ignore_rsi:
  "checkTrendAlignedEngulfing (ind \<lparr> rsi14 := r \<rparr>) = checkTrendAlignedEngulfing ind"
  "checkPinBarAtStructure (ind \<lparr> rsi14 := r \<rparr>) c = checkPinBarAtStructure ind c"
  "checkPullbackIntoTrend cs (ind \<lparr> rsi14 := r \<rparr>) = checkPullbackIntoTrend cs ind"
  "checkReversalAtSR (ind \<lparr> rsi14 := r \<rparr>) = checkReversalAtSR ind"
  by (simp_all add: checkTrendAlignedEngulfing_def checkPinBarAtStructure_def
        checkPullbackIntoTrend_def checkReversalAtSR_def cong: if_cong option.case_cong)

lemma reasons_ignore_rsi:
  "mode \<noteq> ''aggressive'' \<Longrightarrow>
     prefilter_reasons candles (ind \<lparr> rsi14 := r \<rparr>) mode = prefilter_reasons candles ind mode"
  by (simp add: prefilter_reasons_triggered heuristics_ignore_rsi)

lemma rsi_not_read_outside_aggressive:
  "mode \<noteq> ''aggressive'' \<Longrightarrow>
     applyPrefilters candles (ind \<lparr> rsi14 := r \<rparr>) mode = applyPrefilters candles ind mode"
  by (simp add: applyPrefilters_def reasons_ignore_rsi cong: if_cong)


lemma sample_oversold:
  "applyPrefilters (flat_candles 50)
     (sample_indicators 25 [swing_at 1.1 5, swing_at 1.2 12] [swing_at 0.9 3, swing_at 0.95 9]
        None quiet_patterns) ''aggressive''
   = \<lparr> isCandidate = True, reason = ''RSI oversold with potential bullish divergence'' \<rparr>"
  by (simp add: prefilter_eval sample_defs)

lemma sample_oversold_conservative:
  "applyPrefilters (flat_candles 50)
     (sample_indicators 25 [swing_at 1.1 5, swing_at 1.2 12] [swing_at 0.9 3, swing_at 0.95 9]
        None quiet_patterns) ''conservative''
   = \<lparr> isCandidate = False, reason = [] \<rparr>"
  by (simp add: prefilter_eval sample_defs)



section \<open>Momentum: range, and the value at zero average loss\<close>

lemma rsi_of_zero_loss: "rsi_of g 0 = 10000 / 101"
  by (simp add: rsi_of_def)

lemma rsi_of_range:
  assumes "0 \<le> g" "0 \<le> l"
  shows "0 \<le> rsi_of g l \<and> rsi_of g l \<le> 100"
proof (cases "l = 0")
  case True
  then show ?thesis by (simp add: rsi_of_def)
next
  case False
  with assms have "0 \<le> g / l" by simp
  then have one: "1 \<le> 1 + g / l" by simp
  then have "100 / (1 + g / l) \<le> 100 / 1"
    by (intro divide_left_mono) simp_all
  moreover have "0 \<le> 100 / (1 + g / l)" using one by simp
  ultimately show ?thesis using False by (simp add: rsi_of_def)
qed

lemma smooth_nonneg: "0 < period \<Longrightarrow> 0 \<le> avg \<Longrightarrow> 0 \<le> x \<Longrightarrow> 0 \<le> smooth period avg x"
  by (simp add: smooth_def)

lemma gain_loss_nonneg: "0 \<le> gain_of c" "0 \<le> loss_of c"
  by (simp_all add: gain_of_def loss_of_def)

lemma rsi_loop_range:
  "\<lbrakk>0 < period; 0 \<le> g; 0 \<le> l; Some v \<in> set (rsi_loop period g l cs)\<rbrakk> \<Longrightarrow> 0 \<le> v \<and> v \<le> 100"
proof (induction cs arbitrary: g l)
  case Nil
  then show ?case by simp
next
  case (Cons c cs)
  let ?g = "smooth period g (gain_of c)" and ?l = "smooth period l (loss_of c)"
  have g: "0 \<le> ?g" and l: "0 \<le> ?l"
    using Cons.prems(1,2,3) by (simp_all add: smooth_nonneg gain_loss_nonneg)
  from Cons.prems(4) consider "v = rsi_of ?g ?l" | "Some v \<in> set (rsi_loop period ?g ?l cs)"
    by (auto simp: Let_def)
  then show ?case
  proof cases
    case 1
    with rsi_of_range [OF g l] show ?thesis by simp
  next
    case 2
    show ?thesis by (rule Cons.IH [OF Cons.prems(1) g l 2])
  qed
qed

lemma seed_nonneg:
  "0 \<le> fst acc \<Longrightarrow> 0 \<le> snd acc \<Longrightarrow>
     0 \<le> fst (foldl seed_step acc cs) \<and> 0 \<le> snd (foldl seed_step acc cs)"
  by (induction cs arbitrary: acc) (simp_all add: seed_step_def)

text \<open>Every value \<open>calculateRSI\<close> writes lies between 0 and 100.\<close>

lemma calculateRSI_range:
  assumes "Some v \<in> set (calculateRSI prices period)"
  shows "0 \<le> v \<and> v \<le> 100"
proof -
  from assms have p: "0 < period" and n: "\<not> length prices < period + 1"
    by (auto simp: calculateRSI_def split: if_splits)
  let ?seed = "foldl seed_step (0, 0) (take period (price_changes prices))"
  let ?g = "fst ?seed / real period" and ?l = "snd ?seed / real period"
  have s: "0 \<le> fst ?seed \<and> 0 \<le> snd ?seed" by (rule seed_nonneg) simp_all
  then have g: "0 \<le> ?g" and l: "0 \<le> ?l" by simp_all
  from assms p n consider "v = rsi_of ?g ?l"
    | "Some v \<in> set (rsi_loop period ?g ?l (drop period (price_changes prices)))"
    by (auto simp: calculateRSI_def Let_def)
  then show ?thesis
  proof cases
    case 1
    with rsi_of_range [OF g l] show ?thesis by simp
  next
    case 2
    show ?thesis by (rule rsi_loop_range [OF p g l 2])
  qed
qed

subsection \<open>A series that only rises\<close>

lemma price_changes_rising:
  "sorted_wrt (<) prices \<Longrightarrow> \<forall>c \<in> set (price_changes prices). 0 < c"
  by (induction prices rule: price_changes.induct) auto

lemma length_price_changes: "length (price_changes prices) = length prices - 1"
  by (induction prices rule: price_changes.induct) auto

lemma seed_all_gains:
  "\<forall>c \<in> set cs. 0 < c \<Longrightarrow> foldl seed_step (g, l) cs = (g + sum_list cs, l)"
  by (induction cs arbitrary: g) (simp_all add: seed_step_def)

lemma rsi_loop_all_gains:
  "\<lbrakk>0 < period; \<forall>c \<in> set cs. 0 < c\<rbrakk>
     \<Longrightarrow> rsi_loop period g 0 cs = replicate (length cs) (Some (10000 / 101))"
proof (induction cs arbitrary: g)
  case Nil
  show ?case by simp
next
  case (Cons c cs)
  from Cons.prems have c: "0 < c" and rest: "\<forall>c \<in> set cs. 0 < c" by simp_all
  have l: "smooth period 0 (loss_of c) = 0" using c by (simp add: smooth_def loss_of_def)
  show ?case
    using Cons.IH [OF Cons.prems(1) rest] l by (simp add: Let_def rsi_of_zero_loss)
qed

lemma rsi_averages_loop_all_gains:
  "\<lbrakk>0 < period; \<forall>c \<in> set cs. 0 < c\<rbrakk>
     \<Longrightarrow> map (map_option snd) (rsi_averages_loop period g 0 cs) = replicate (length cs) (Some 0)"
proof (induction cs arbitrary: g)
  case Nil
  show ?case by simp
next
  case (Cons c cs)
  from Cons.prems have c: "0 < c" and rest: "\<forall>c \<in> set cs. 0 < c" by simp_all
  have l: "smooth period 0 (loss_of c) = 0" using c by (simp add: smooth_def loss_of_def)
  show ?case
    using Cons.IH [OF Cons.prems(1) rest] l by (simp add: Let_def)
qed

lemma calculateRSI_rising:
  assumes "sorted_wrt (<) prices" "0 < period" "period + 1 \<le> length prices"
  shows "calculateRSI prices period
         = replicate period None @ replicate (length prices - period) (Some (10000 / 101))"
    and "map (map_option snd) (rsi_averages prices period)
         = replicate period None @ replicate (length prices - period) (Some 0)"
proof -
  let ?cs = "price_changes prices"
  have pos: "\<forall>c \<in> set ?cs. 0 < c" by (rule price_changes_rising [OF assms(1)])
  have pos_take: "\<forall>c \<in> set (take period ?cs). 0 < c"
    using pos by (meson in_set_takeD)
  have pos_drop: "\<forall>c \<in> set (drop period ?cs). 0 < c"
    using pos by (meson in_set_dropD)
  have seed: "snd (foldl seed_step (0, 0) (take period ?cs)) = 0"
    by (simp add: seed_all_gains [OF pos_take])
  have len: "Suc (length (drop period ?cs)) = length prices - period"
    using assms(3) by (simp add: length_price_changes)
  show "calculateRSI prices period
         = replicate period None @ replicate (length prices - period) (Some (10000 / 101))"
    using assms(2,3) seed
    by (simp add: calculateRSI_def Let_def rsi_of_zero_loss
          rsi_loop_all_gains [OF assms(2) pos_drop] len [symmetric] del: replicate_Suc
          flip: replicate_Suc)
  show "map (map_option snd) (rsi_averages prices period)
         = replicate period None @ replicate (length prices - period) (Some 0)"
    using assms(2,3) seed
    by (simp add: rsi_averages_def Let_def
          rsi_averages_loop_all_gains [OF assms(2) pos_drop] len [symmetric] del: replicate_Suc
          flip: replicate_Suc)
qed

lemma rising_closes_sorted: "sorted_wrt (<) rising_closes"
  unfolding rising_closes_def sorted_wrt_map
  by (rule sorted_wrt_mono_rel [OF _ sorted_wrt_upt]) simp

text \<open>
  Claim C4.  On fifty closes that only rise, with period 14, the average loss is \<open>0\<close> at
  every index from 14 on, and the value \<open>calculateRSI\<close> writes there is
  \<open>100 - 100 / 101\<close>, not \<open>100\<close>: with an average loss of \<open>0\<close> the source sets \<open>rs\<close>, not
  the result, to \<open>100\<close>.  The value is below the one an average gain of \<open>1\<close> gives with
  an average loss of one thousandth.
\<close>

theorem rsi_rising_series:
  "length rising_closes = 50
   \<and> calculateRSI rising_closes 14 = replicate 14 None @ replicate 36 (Some (10000 / 101))
   \<and> map (map_option snd) (rsi_averages rising_closes 14)
       = replicate 14 None @ replicate 36 (Some 0)
   \<and> rsi_of 1 0 = 10000 / 101
   \<and> rsi_of 1 (1 / 1000) = 100000 / 1001"
proof -
  have len: "length rising_closes = 50" by (simp add: rising_closes_def)
  have p: "(0::nat) < 14" by simp
  have n: "(14::nat) + 1 \<le> length rising_closes" by (simp add: len)
  have near: "rsi_of 1 (1 / 1000) = 100000 / 1001" by (simp add: rsi_of_def)
  from calculateRSI_rising [OF rising_closes_sorted p n] len near show ?thesis
    by (simp add: rsi_of_zero_loss)
qed

end
